theory Spec2Isabelle
  imports Main "HOL-Library.Char_ord" "HOL-Library.List_Lexorder" "HOL-Library.Multiset"
begin

section \<open>Python strings and paths\<close>

text \<open>
  A Python \<open>str\<close> is modelled by the bytes of its UTF-8 encoding (\<^typ>\<open>string\<close>). The
  literals the program uses (\<open>'.vsi'\<close>, \<open>'.tif'\<close>, \<open>'/'\<close>) are ASCII, so suffix tests and
  splitting agree on code points and on bytes, and comparing UTF-8 encodings byte by byte
  orders two texts as comparing their code points does. The order on \<^typ>\<open>string\<close> is the
  lexicographic one over the byte value of each character.
\<close>

text \<open>\<^verbatim>\<open>s.endswith(suf)\<close> and \<^verbatim>\<open>s.startswith(pre)\<close>.\<close>

definition endswith :: "string \<Rightarrow> string \<Rightarrow> bool" where
  "endswith s suf = (length suf \<le> length s \<and> drop (length s - length suf) s = suf)"

definition startswith :: "string \<Rightarrow> string \<Rightarrow> bool" where
  "startswith s pre = (take (length pre) s = pre)"

text \<open>
  \<^verbatim>\<open>s.split(sep)\<close>: the text is scanned from the left, each occurrence of the separator
  closes a field and the scan goes on behind it. An empty separator raises ValueError.
  Exceptions are carried by their message.
\<close>

fun split_from :: "string \<Rightarrow> string \<Rightarrow> string \<Rightarrow> string list" where
  "split_from sep acc [] = [rev acc]"
| "split_from sep acc (c # cs) =
     (if startswith (c # cs) sep
      then rev acc # split_from sep [] (drop (length sep - 1) cs)
      else split_from sep (c # acc) cs)"

definition split :: "string \<Rightarrow> string \<Rightarrow> string + string list" where
  "split s sep = (if sep = [] then Inl ''empty separator'' else Inr (split_from sep [] s))"

text \<open>\<^verbatim>\<open>xs[0]\<close>, which raises IndexError on an empty list.\<close>

definition index0 :: "'a list \<Rightarrow> string + 'a" where
  "index0 xs = (case xs of [] \<Rightarrow> Inl ''list index out of range'' | x # _ \<Rightarrow> Inr x)"

text \<open>\<^verbatim>\<open>os.path.join(a, b)\<close> of \<open>posixpath\<close>, for two components.\<close>

definition join :: "string \<Rightarrow> string \<Rightarrow> string" where
  "join a b =
     (if startswith b ''/'' then b
      else if a = [] \<or> endswith a ''/'' then a @ b
      else a @ ''/'' @ b)"

text \<open>\<^verbatim>\<open>str(n)\<close> for an integer, as an f-string formats it.\<close>

fun str_nat :: "nat \<Rightarrow> string" where
  "str_nat n =
     (if n < 10 then [''0123456789'' ! n]
      else str_nat (n div 10) @ [''0123456789'' ! (n mod 10)])"

declare str_nat.simps [simp del]

definition str_int :: "int \<Rightarrow> string" where
  "str_int i = (if i < 0 then ''-'' @ str_nat (nat (- i)) else str_nat (nat i))"

section \<open>File discovery and destination path\<close>

text \<open>
  Line 95: \<^verbatim>\<open>sorted([f for f in os.listdir(vsi_folder) if f.endswith('.vsi')])\<close>, as a
  function of the names \<open>os.listdir\<close> returned. \<open>sorted\<close> orders by \<open><\<close> on \<open>str\<close>; the
  order is total, so the sorted list is the one \<^const>\<open>sort\<close> computes.
\<close>

definition vsi_files_of :: "string list \<Rightarrow> string list" where
  "vsi_files_of names = sort (filter (\<lambda>f. endswith f ''.vsi'') names)"

text \<open>
  Line 115: \<^verbatim>\<open>os.path.join(tif_folder, vsi_file.split('.vsi')[0] + '.tif')\<close>.
\<close>

definition save_url_of :: "string \<Rightarrow> string \<Rightarrow> string + string" where
  "save_url_of tif_folder vsi_file =
     (case split vsi_file ''.vsi'' of
        Inl e \<Rightarrow> Inl e
      | Inr parts \<Rightarrow>
          (case index0 parts of
             Inl e \<Rightarrow> Inl e
           | Inr stem \<Rightarrow> Inr (join tif_folder (stem @ ''.tif''))))"

section \<open>The window, the collaborators and what a run leaves behind\<close>

text \<open>The four text fields of \<open>MainWindow\<close> that \<open>run_conversion\<close> reads.\<close>

record main_window =
  vsi_folder_entry :: string
  tif_folder_entry :: string
  memory_entry :: string
  process_entry :: string

datatype entry_kind = Regular_file | Directory | Other_entry

text \<open>
  What the program calls and does not define. A call that raises is \<open>Inl\<close> of the
  exception's message (\<open>Some\<close> for a call without a result). The objects of ImageJ,
  xarray and numpy are opaque values of type \<open>'v\<close>.
  \<^item> \<open>py_int\<close>: the builtin \<open>int\<close> on a text; \<open>Inl\<close> is its ValueError.
  \<^item> \<open>imagej_init\<close>: \<open>imagej.init('sc.fiji:fiji', mode='headless')\<close>.
  \<^item> \<open>directory\<close>: the entries of a folder with their kinds; \<open>os.listdir\<close> returns
    the names alone.
  \<^item> \<open>importer_options\<close>: lines 117 to 120, on the image's path.
  \<^item> \<open>io_open\<close>, \<open>from_java\<close>, \<open>values_of\<close>, \<open>imwrite\<close>: lines 123 to 127.
  \<^item> \<open>as_completed\<close>: the order in which the pool of the given size completes the
    submitted futures.
\<close>

record 'v task_run =
  jimage :: "'v option"
  image_array :: "'v option"
  image_array_np :: "'v option"
  out :: "string list"
  collected :: bool
  raised :: "string option"

record 'v env =
  py_int :: "string \<Rightarrow> string + int"
  imagej_init :: "string + 'v"
  directory :: "string \<Rightarrow> string + (string \<times> entry_kind) list"
  importer_options :: "string \<Rightarrow> string option"
  io_open :: "'v \<Rightarrow> string \<Rightarrow> string + 'v"
  from_java :: "'v \<Rightarrow> 'v \<Rightarrow> string + 'v"
  values_of :: "'v \<Rightarrow> string + 'v"
  imwrite :: "string \<Rightarrow> 'v \<Rightarrow> string option"
  as_completed :: "int \<Rightarrow> (string \<times> 'v task_run) list \<Rightarrow> (string \<times> 'v task_run) list"

text \<open>
  A \<^typ>\<open>'v task_run\<close> is the frame of one call of \<open>convert_vsi_to_tif\<close> at the moment
  the call ends: the three locals that hold image data (\<open>None\<close> when the name is not
  bound), the lines the call printed, whether \<open>gc.collect()\<close> ran, and the exception the
  call ends with, if any (the one its future then holds).
\<close>

definition fresh_frame :: "'v task_run" where
  "fresh_frame =
     \<lparr>jimage = None, image_array = None, image_array_np = None, out = [],
      collected = False, raised = None\<rparr>"

text \<open>Lines 123 to 128, the body of the \<open>try\<close>: stops at the first call that raises.\<close>

definition try_body :: "'v env \<Rightarrow> 'v \<Rightarrow> string \<Rightarrow> string \<Rightarrow> 'v task_run \<Rightarrow> 'v task_run" where
  "try_body E ij image_url save_url fr =
     (case io_open E ij image_url of
        Inl e \<Rightarrow> fr\<lparr>raised := Some e\<rparr>
      | Inr j \<Rightarrow>
          (let fr1 = fr\<lparr>jimage := Some j\<rparr> in
           case from_java E ij j of
             Inl e \<Rightarrow> fr1\<lparr>raised := Some e\<rparr>
           | Inr a \<Rightarrow>
               (let fr2 = fr1\<lparr>image_array := Some a\<rparr> in
                case values_of E a of
                  Inl e \<Rightarrow> fr2\<lparr>raised := Some e\<rparr>
                | Inr n \<Rightarrow>
                    (let fr3 = fr2\<lparr>image_array_np := Some n\<rparr> in
                     case imwrite E save_url n of
                       Some e \<Rightarrow> fr3\<lparr>raised := Some e\<rparr>
                     | None \<Rightarrow>
                         fr3\<lparr>out := out fr3 @
                           [''Image saved successfully to '' @ save_url @ ''.'']\<rparr>))))"

text \<open>Lines 129 and 130: \<^verbatim>\<open>except Exception as e\<close> prints and ends the exception.\<close>

definition except_clause :: "string \<Rightarrow> 'v task_run \<Rightarrow> 'v task_run" where
  "except_clause vsi_file fr =
     (case raised fr of
        None \<Rightarrow> fr
      | Some e \<Rightarrow>
          fr\<lparr>out := out fr @ [''Error during conversion of '' @ vsi_file @ '': '' @ e],
             raised := None\<rparr>)"

text \<open>Lines 131 to 136: the \<open>finally\<close> clause.\<close>

definition finally_clause :: "'v task_run \<Rightarrow> 'v task_run" where
  "finally_clause fr =
     (let fr1 = (if image_array fr \<noteq> None then fr\<lparr>image_array := None\<rparr> else fr);
          fr2 = (if jimage fr1 \<noteq> None then fr1\<lparr>jimage := None\<rparr> else fr1)
      in fr2\<lparr>collected := True\<rparr>)"

text \<open>
  Lines 113 to 136. What raises before the \<open>try\<close> (lines 115 and 117 to 120) leaves the
  function at once.
\<close>

definition convert_vsi_to_tif ::
  "'v env \<Rightarrow> string \<Rightarrow> string \<Rightarrow> string \<Rightarrow> 'v \<Rightarrow> 'v task_run" where
  "convert_vsi_to_tif E vsi_file vsi_folder tif_folder ij =
     (let image_url = join vsi_folder vsi_file in
      case save_url_of tif_folder vsi_file of
        Inl e \<Rightarrow> fresh_frame\<lparr>raised := Some e\<rparr>
      | Inr save_url \<Rightarrow>
          (case importer_options E image_url of
             Some e \<Rightarrow> fresh_frame\<lparr>raised := Some e\<rparr>
           | None \<Rightarrow>
               finally_clause
                 (except_clause vsi_file (try_body E ij image_url save_url fresh_frame))))"



text \<open>
  What \<open>run_conversion\<close> does that can be seen from outside, in the order it does it.
\<close>

datatype event =
    Critical string string
  | Information string string
  | Add_option string
  | Imagej_init
  | Listdir string
  | Submit string
  | Print string

datatype exit = Returned | Raised string

text \<open>
  A run: the events of the coordinator, the submitted tasks in the order of submission
  (each with its input name), the futures the \<open>for\<close> loop consumed in its order, and how
  \<open>run_conversion\<close> ended.
\<close>

record 'v run =
  events :: "event list"
  futures :: "(string \<times> 'v task_run) list"
  consumed :: "(string \<times> 'v task_run) list"
  finished :: exit

text \<open>Lines 72 to 79 and 82 to 89: each \<open>try\<close> gives the number or the ValueError.\<close>

definition get_memory :: "main_window \<Rightarrow> 'v env \<Rightarrow> string + int" where
  "get_memory W E =
     (let memory_input = memory_entry W in
      case (if memory_input \<noteq> [] then py_int E memory_input else Inr 28) of
        Inl ve \<Rightarrow> Inl ve
      | Inr gigs_of_memory \<Rightarrow>
          if gigs_of_memory \<le> 0 then Inl ''Memory must be a positive integer.''
          else Inr gigs_of_memory)"

definition get_processes :: "main_window \<Rightarrow> 'v env \<Rightarrow> string + int" where
  "get_processes W E =
     (let process_input = process_entry W in
      case (if process_input \<noteq> [] then py_int E process_input else Inr 2) of
        Inl ve \<Rightarrow> Inl ve
      | Inr max_workers \<Rightarrow>
          if max_workers \<le> 0 then Inl ''Processes must be a positive integer.''
          else Inr max_workers)"

text \<open>Lines 103 to 108: the line printed for one completed future.\<close>

definition report :: "string \<times> 'v task_run \<Rightarrow> event" where
  "report ft =
     (case raised (snd ft) of
        None \<Rightarrow> Print (''Processed '' @ fst ft @ '' successfully.'')
      | Some e \<Rightarrow> Print (''Error processing '' @ fst ft @ '': '' @ e))"

definition completion :: event where
  "completion = Information ''Completion'' ''All conversions completed.''"

definition no_files :: event where
  "no_files = Information ''No Files'' ''No VSI files found in the selected folder.''"

text \<open>Lines 100 to 110, once the files are known.\<close>

definition run_pool ::
  "main_window \<Rightarrow> 'v env \<Rightarrow> int \<Rightarrow> 'v \<Rightarrow> event list \<Rightarrow> string list \<Rightarrow> 'v run" where
  "run_pool W E max_workers ij prior vsi_files =
     (let fs = map (\<lambda>file. (file,
                 convert_vsi_to_tif E file (vsi_folder_entry W) (tif_folder_entry W) ij))
                vsi_files;
          completed = as_completed E max_workers fs
      in \<lparr>events = prior @ map Submit vsi_files @ map report completed @ [completion],
          futures = fs, consumed = completed, finished = Returned\<rparr>)"

text \<open>Lines 67 to 110.\<close>

definition run_conversion :: "main_window \<Rightarrow> 'v env \<Rightarrow> 'v run" where
  "run_conversion W E =
     (let vsi_folder = vsi_folder_entry W in
      case get_memory W E of
        Inl ve \<Rightarrow>
          \<lparr>events = [Critical ''Input Error'' (''Invalid memory input: '' @ ve)],
           futures = [], consumed = [], finished = Returned\<rparr>
      | Inr gigs_of_memory \<Rightarrow>
          (case get_processes W E of
             Inl ve \<Rightarrow>
               \<lparr>events = [Critical ''Input Error'' (''Invalid process input: '' @ ve)],
                futures = [], consumed = [], finished = Returned\<rparr>
           | Inr max_workers \<Rightarrow>
               (let started = [Add_option (''-Xmx'' @ str_int gigs_of_memory @ ''g''),
                               Imagej_init]
                in case imagej_init E of
                     Inl e \<Rightarrow>
                       \<lparr>events = started, futures = [], consumed = [], finished = Raised e\<rparr>
                   | Inr ij \<Rightarrow>
                       (let listed = started @ [Listdir vsi_folder] in
                        case directory E vsi_folder of
                          Inl e \<Rightarrow>
                            \<lparr>events = listed, futures = [], consumed = [],
                             finished = Raised e\<rparr>
                        | Inr entries \<Rightarrow>
                            (let vsi_files = vsi_files_of (map fst entries) in
                             if vsi_files = [] then
                               \<lparr>events = listed @ [no_files], futures = [], consumed = [],
                                finished = Returned\<rparr>
                             else run_pool W E max_workers ij listed vsi_files)))))"

text \<open>The lines the \<open>for\<close> loop prints, among the events of a run.\<close>

fun is_print :: "event \<Rightarrow> bool" where
  "is_print (Print line) = True"
| "is_print e = False"

section \<open>A laboratory: one folder, collaborators that can fail\<close>

text \<open>
  Concrete collaborators, to run the program on: \<open>int\<close> on the four texts used below,
  a source folder \<open>in\<close> with the given entries, an image reader that raises \<open>boom\<close> on
  the listed paths, and a pool that completes the futures in reverse order of submission.
\<close>

definition example_int :: "string \<Rightarrow> string + int" where
  "example_int s =
     (if s = ''0'' then Inr 0
      else if s = ''-1'' then Inr (- 1)
      else if s = ''2'' then Inr 2
      else if s = ''28'' then Inr 28
      else Inl (''invalid literal for int() with base 10: '' @ s))"

definition lab_env :: "(string \<times> entry_kind) list \<Rightarrow> string list \<Rightarrow> nat env" where
  "lab_env entries bad =
     \<lparr>py_int = example_int,
      imagej_init = Inr 0,
      directory = (\<lambda>d. if d = ''in'' then Inr entries else Inl ''No such file or directory''),
      importer_options = (\<lambda>url. None),
      io_open = (\<lambda>ij url. if url \<in> set bad then Inl ''boom'' else Inr 1),
      from_java = (\<lambda>ij j. Inr 2),
      values_of = (\<lambda>a. Inr 3),
      imwrite = (\<lambda>url n. None),
      as_completed = (\<lambda>n fs. rev fs)\<rparr>"


definition lab_window :: "string \<Rightarrow> string \<Rightarrow> main_window" where
  "lab_window mem procs =
     \<lparr>vsi_folder_entry = ''in'', tif_folder_entry = ''out'',
      memory_entry = mem, process_entry = procs\<rparr>"

section \<open>Properties of the string functions\<close>

lemma endswith_iff: "endswith s suf \<longleftrightarrow> (\<exists>stem. s = stem @ suf)"
proof
  assume "endswith s suf"
  then have "s = take (length s - length suf) s @ suf"
    by (metis append_take_drop_id endswith_def)
  then show "\<exists>stem. s = stem @ suf" ..
next
  assume "\<exists>stem. s = stem @ suf"
  then show "endswith s suf"
    by (auto simp: endswith_def)
qed

lemma split_from_nonempty: "split_from sep acc s \<noteq> []"
  by (induction sep acc s rule: split_from.induct) auto

lemma save_url_of_returns: "\<exists>p. save_url_of tif_folder vsi_file = Inr p"
  using split_from_nonempty [of "''.vsi''" "[]" vsi_file]
  by (auto simp: save_url_of_def split_def index0_def split: list.splits)

text \<open>The order that \<^const>\<open>sort\<close> uses on names: lexicographic, by byte value.\<close>

lemma string_less_bytewise:
  "(xs :: string) < ys \<longleftrightarrow> (xs, ys) \<in> lexord {(a, b). (of_char a :: nat) < of_char b}"
  by (simp add: list_less_def less_char_def)

text \<open>
  What line 115 computes in general: the text before the first \<open>.vsi\<close> of the name, with
  \<open>.tif\<close> behind it. It is the name with its suffix replaced only when the name has no
  other \<open>.vsi\<close> in it.
\<close>

lemma startswith_append: "startswith (sep @ rest) sep"
  by (simp add: startswith_def)

lemma split_from_first:
  assumes "sep \<noteq> []"
    and "\<forall>i < length pre. \<not> startswith (drop i (pre @ sep @ rest)) sep"
  shows "\<exists>parts. split_from sep acc (pre @ sep @ rest) = (rev acc @ pre) # parts"
  using assms(2)
proof (induction pre arbitrary: acc)
  case Nil
  from assms(1) obtain c cs where sep: "sep = c # cs"
    by (cases sep) auto
  have "startswith (c # cs @ rest) (c # cs)"
    using startswith_append [of "c # cs" rest] by simp
  then show ?case
    by (simp add: sep)
next
  case (Cons p ps)
  have first: "\<not> startswith (p # ps @ sep @ rest) sep"
    using Cons.prems by (metis append_Cons drop0 length_greater_0_conv list.distinct(1))
  have "\<forall>i < length ps. \<not> startswith (drop i (ps @ sep @ rest)) sep"
  proof (intro allI impI)
    fix i assume "i < length ps"
    then have "Suc i < length (p # ps)" by simp
    with Cons.prems have "\<not> startswith (drop (Suc i) ((p # ps) @ sep @ rest)) sep"
      by blast
    then show "\<not> startswith (drop i (ps @ sep @ rest)) sep" by simp
  qed
  from Cons.IH [OF this, of "p # acc"] first show ?case
    by simp
qed

lemma save_url_of_first_vsi:
  assumes "\<forall>i < length pre. \<not> startswith (drop i (pre @ ''.vsi'' @ rest)) ''.vsi''"
  shows "save_url_of tif_folder (pre @ ''.vsi'' @ rest) = Inr (join tif_folder (pre @ ''.tif''))"
proof -
  obtain parts where "split_from ''.vsi'' [] (pre @ ''.vsi'' @ rest) = pre # parts"
    using split_from_first [of "''.vsi''" pre rest "[]"] assms by auto
  then show ?thesis
    by (simp add: save_url_of_def split_def index0_def)
qed

text \<open>
  Claim C4. File discovery returns exactly the directory entries whose name ends with
  \<open>.vsi\<close> (each as often as the listing holds it), in ascending byte-lexicographic order
  of the names; the listing \<open>b.vsi, A.vsi, c.vsi\<close> gives \<open>A.vsi, b.vsi, c.vsi\<close>.
\<close>

theorem discovery_sorted_vsi_entries:
  "sorted (vsi_files_of names)
   \<and> mset (vsi_files_of names) = {#f \<in># mset names. \<exists>stem. f = stem @ ''.vsi''#}
   \<and> vsi_files_of [''b.vsi'', ''A.vsi'', ''c.vsi''] = [''A.vsi'', ''b.vsi'', ''c.vsi'']"
proof (intro conjI)
  show "sorted (vsi_files_of names)"
    by (simp add: vsi_files_of_def)
  show "mset (vsi_files_of names) = {#f \<in># mset names. \<exists>stem. f = stem @ ''.vsi''#}"
    by (simp add: vsi_files_of_def endswith_iff)
  show "vsi_files_of [''b.vsi'', ''A.vsi'', ''c.vsi''] = [''A.vsi'', ''b.vsi'', ''c.vsi'']"
    by (simp add: vsi_files_of_def endswith_def)
qed

text \<open>
  Claim C5. The destination of an input is the destination folder joined with the input's
  name where the final \<open>.vsi\<close> is replaced by \<open>.tif\<close>. The program cuts the name at the
  first \<open>.vsi\<close> instead: \<open>a.vsi.b.vsi\<close> is written to \<open>a.tif\<close>, not to \<open>a.vsi.b.tif\<close>.
\<close>

theorem save_url_cuts_at_first_vsi:
  "save_url_of ''out'' ''a.vsi.b.vsi'' = Inr ''out/a.tif''
   \<and> save_url_of ''out'' ''a.vsi.b.vsi'' \<noteq> Inr ''out/a.vsi.b.tif''
   \<and> save_url_of ''out'' ''a.vsi.b.vsi'' = save_url_of ''out'' ''a.vsi''"
  by (simp add: save_url_of_def split_def index0_def join_def startswith_def endswith_def)

section \<open>The conversion task\<close>

lemmas lab_defs = lab_env_def lab_window_def example_int_def

lemmas task_defs = convert_vsi_to_tif_def save_url_of_def split_def index0_def join_def
  startswith_def endswith_def try_body_def except_clause_def finally_clause_def
  fresh_frame_def

lemma str_nat_28: "str_nat 28 = ''28''"
  by (simp add: str_nat.simps)

lemma convert_after_options:
  "importer_options E (join vsi_folder vsi_file) = None \<Longrightarrow>
   \<exists>p. save_url_of tif_folder vsi_file = Inr p \<and>
     convert_vsi_to_tif E vsi_file vsi_folder tif_folder ij =
       finally_clause (except_clause vsi_file
         (try_body E ij (join vsi_folder vsi_file) p fresh_frame))"
  using save_url_of_returns [of tif_folder vsi_file]
  by (auto simp: convert_vsi_to_tif_def Let_def)


lemma except_clause_clears: "raised (except_clause vsi_file fr) = None"
  by (simp add: except_clause_def split: option.splits)

lemma finally_clause_frame:
  "jimage (finally_clause fr) = None" "image_array (finally_clause fr) = None"
  "collected (finally_clause fr)" "raised (finally_clause fr) = raised fr"
  "out (finally_clause fr) = out fr" "image_array_np (finally_clause fr) = image_array_np fr"
  by (simp_all add: finally_clause_def Let_def)

text \<open>
  Whatever raises inside the \<open>try\<close> ends in the \<open>except\<close> clause: the call returns, and
  its future holds no exception.
\<close>

lemma try_errors_swallowed:
  "importer_options E (join vsi_folder vsi_file) = None \<Longrightarrow>
   raised (convert_vsi_to_tif E vsi_file vsi_folder tif_folder ij) = None"
  using convert_after_options [of E vsi_folder vsi_file tif_folder ij]
  by (auto simp: finally_clause_frame except_clause_clears)

lemma swallowed_error_reads_processed:
  "importer_options E (join vsi_folder vsi_file) = None \<Longrightarrow>
   report (vsi_file, convert_vsi_to_tif E vsi_file vsi_folder tif_folder ij) =
     Print (''Processed '' @ vsi_file @ '' successfully.'')"
  using try_errors_swallowed [of E vsi_folder vsi_file tif_folder ij]
  by (simp add: report_def)



section \<open>The run\<close>

lemmas run_defs = run_conversion_def run_pool_def get_memory_def get_processes_def
  vsi_files_of_def report_def completion_def no_files_def str_int_def

lemma run_bad_memory:
  "get_memory W E = Inl ve \<Longrightarrow>
   run_conversion W E =
     \<lparr>events = [Critical ''Input Error'' (''Invalid memory input: '' @ ve)],
      futures = [], consumed = [], finished = Returned\<rparr>"
  by (simp add: run_conversion_def)

lemma run_bad_processes:
  "get_memory W E = Inr g \<Longrightarrow> get_processes W E = Inl ve \<Longrightarrow>
   run_conversion W E =
     \<lparr>events = [Critical ''Input Error'' (''Invalid process input: '' @ ve)],
      futures = [], consumed = [], finished = Returned\<rparr>"
  by (simp add: run_conversion_def)

lemma get_memory_nonpositive:
  "memory_entry W \<noteq> [] \<Longrightarrow> py_int E (memory_entry W) = Inr m \<Longrightarrow> m \<le> 0 \<Longrightarrow>
   get_memory W E = Inl ''Memory must be a positive integer.''"
  by (simp add: get_memory_def)

lemma get_processes_nonpositive:
  "process_entry W \<noteq> [] \<Longrightarrow> py_int E (process_entry W) = Inr n \<Longrightarrow> n \<le> 0 \<Longrightarrow>
   get_processes W E = Inl ''Processes must be a positive integer.''"
  by (simp add: get_processes_def)

lemma run_valid:
  assumes "get_memory W E = Inr g" "get_processes W E = Inr n" "imagej_init E = Inr ij"
    "directory E (vsi_folder_entry W) = Inr entries"
  shows "run_conversion W E =
   (if vsi_files_of (map fst entries) = [] then
      \<lparr>events = [Add_option (''-Xmx'' @ str_int g @ ''g''), Imagej_init,
                 Listdir (vsi_folder_entry W), no_files],
       futures = [], consumed = [], finished = Returned\<rparr>
    else run_pool W E n ij
      [Add_option (''-Xmx'' @ str_int g @ ''g''), Imagej_init, Listdir (vsi_folder_entry W)]
      (vsi_files_of (map fst entries)))"
  using assms by (simp add: run_conversion_def Let_def)

lemma prints_of_submits: "filter is_print (map Submit fs) = []"
  by (induction fs) auto

lemma prints_of_reports: "filter is_print (map report fts) = map report fts"
  by (induction fts) (auto simp: report_def split: option.splits)

lemma count_completion_submits: "count_list (map Submit fs) completion = 0"
  by (induction fs) (auto simp: completion_def)

lemma count_completion_reports: "count_list (map report fts) completion = 0"
  by (induction fts) (auto simp: completion_def report_def split: option.splits)

text \<open>The laboratory's window with the defaults typed in, and its collaborators.\<close>

lemma lab_config:
  "get_memory (lab_window ''28'' ''2'') (lab_env entries bad) = Inr 28"
  "get_processes (lab_window ''28'' ''2'') (lab_env entries bad) = Inr 2"
  "imagej_init (lab_env entries bad) = Inr 0"
  "directory (lab_env entries bad) (vsi_folder_entry (lab_window ''28'' ''2'')) = Inr entries"
  "\<forall>fs. mset (as_completed (lab_env entries bad) 2 fs) = mset fs"
  by (simp_all add: get_memory_def get_processes_def lab_defs)

text \<open>
  Claim C1. A task whose decode or write raises gives a Failure for its input, reported
  as an error and not as a success. The program does the opposite: with \<open>a.vsi\<close>
  unreadable and \<open>b.vsi\<close> sound, the task of \<open>a.vsi\<close> prints its error and returns, its
  future holds no exception, and the loop prints \<open>Processed a.vsi successfully.\<close> The error
  stays inside the task and \<open>b.vsi\<close> is converted.
\<close>

theorem codec_error_reported_as_success:
  "events (run_conversion (lab_window ''28'' ''2'')
      (lab_env [(''a.vsi'', Regular_file), (''b.vsi'', Regular_file)] [''in/a.vsi''])) =
     [Add_option ''-Xmx28g'', Imagej_init, Listdir ''in'', Submit ''a.vsi'', Submit ''b.vsi'',
      Print ''Processed b.vsi successfully.'', Print ''Processed a.vsi successfully.'',
      Information ''Completion'' ''All conversions completed.'']
   \<and> map (\<lambda>ft. (fst ft, out (snd ft), raised (snd ft)))
       (futures (run_conversion (lab_window ''28'' ''2'')
         (lab_env [(''a.vsi'', Regular_file), (''b.vsi'', Regular_file)] [''in/a.vsi'']))) =
     [(''a.vsi'', [''Error during conversion of a.vsi: boom''], None),
      (''b.vsi'', [''Image saved successfully to out/b.tif.''], None)]
   \<and> finished (run_conversion (lab_window ''28'' ''2'')
      (lab_env [(''a.vsi'', Regular_file), (''b.vsi'', Regular_file)] [''in/a.vsi''])) =
     Returned"
  by (simp add: run_defs task_defs lab_defs str_nat_28 Let_def)

text \<open>
  Claim C2. For a valid configuration and any listing of the source folder, one task is
  submitted per discovered file, in the order of discovery; the loop consumes each
  submitted future once (the pool hands every future over once, in some order) and prints
  one line for each, so each discovered file has exactly one result.
\<close>

theorem one_result_per_discovered_file:
  assumes "get_memory W E = Inr g" "get_processes W E = Inr n" "imagej_init E = Inr ij"
    "directory E (vsi_folder_entry W) = Inr entries"
    "\<forall>fs. mset (as_completed E n fs) = mset fs"
  shows "map fst (futures (run_conversion W E)) = vsi_files_of (map fst entries)
    \<and> mset (consumed (run_conversion W E)) = mset (futures (run_conversion W E))
    \<and> mset (map fst (consumed (run_conversion W E))) = mset (vsi_files_of (map fst entries))
    \<and> filter is_print (events (run_conversion W E)) = map report (consumed (run_conversion W E))"
proof (cases "vsi_files_of (map fst entries) = []")
  case True
  then show ?thesis
    using run_valid [OF assms(1-4)] by (simp add: no_files_def)
next
  case False
  define fs where "fs = map (\<lambda>file. (file,
      convert_vsi_to_tif E file (vsi_folder_entry W) (tif_folder_entry W) ij))
      (vsi_files_of (map fst entries))"
  have run: "run_conversion W E = run_pool W E n ij
      [Add_option (''-Xmx'' @ str_int g @ ''g''), Imagej_init, Listdir (vsi_folder_entry W)]
      (vsi_files_of (map fst entries))"
    using run_valid [OF assms(1-4)] False by simp
  have fu: "futures (run_conversion W E) = fs"
    by (simp add: run run_pool_def Let_def fs_def)
  have co: "consumed (run_conversion W E) = as_completed E n fs"
    by (simp add: run run_pool_def Let_def fs_def)
  have ev: "events (run_conversion W E) =
      [Add_option (''-Xmx'' @ str_int g @ ''g''), Imagej_init, Listdir (vsi_folder_entry W)]
      @ map Submit (vsi_files_of (map fst entries)) @ map report (as_completed E n fs)
      @ [completion]"
    by (simp add: run run_pool_def Let_def fs_def)
  have perm: "mset (as_completed E n fs) = mset fs"
    using assms(5) by blast
  have names: "map fst fs = vsi_files_of (map fst entries)"
    by (simp add: fs_def comp_def)
  have "mset (map fst (as_completed E n fs)) = mset (map fst fs)"
    using perm by (metis mset_map)
  then have names': "mset (map fst (as_completed E n fs)) = mset (vsi_files_of (map fst entries))"
    by (simp only: names)
  have prints: "filter is_print (events (run_conversion W E)) = map report (as_completed E n fs)"
    unfolding ev by (simp add: prints_of_submits prints_of_reports completion_def)
  show ?thesis
    unfolding fu co prints using names perm names' by blast
qed

theorem one_result_per_discovered_file_witness:
  "get_memory (lab_window ''28'' ''2'')
      (lab_env [(''b.vsi'', Regular_file), (''a.vsi'', Regular_file), (''notes.txt'', Regular_file)]
        [''in/a.vsi'']) = Inr 28
   \<and> (\<forall>fs. mset (as_completed
        (lab_env [(''b.vsi'', Regular_file), (''a.vsi'', Regular_file), (''notes.txt'', Regular_file)]
          [''in/a.vsi'']) 2 fs) = mset fs)
   \<and> map fst (futures (run_conversion (lab_window ''28'' ''2'')
        (lab_env [(''b.vsi'', Regular_file), (''a.vsi'', Regular_file), (''notes.txt'', Regular_file)]
          [''in/a.vsi'']))) = [''a.vsi'', ''b.vsi'']
   \<and> mset (map fst (consumed (run_conversion (lab_window ''28'' ''2'')
        (lab_env [(''b.vsi'', Regular_file), (''a.vsi'', Regular_file), (''notes.txt'', Regular_file)]
          [''in/a.vsi''])))) = mset [''a.vsi'', ''b.vsi'']"
proof -
  let ?W = "lab_window ''28'' ''2''"
  let ?entries = "[(''b.vsi'', Regular_file), (''a.vsi'', Regular_file),
    (''notes.txt'', Regular_file)]"
  let ?E = "lab_env ?entries [''in/a.vsi'']"
  have h1: "get_memory ?W ?E = Inr 28" and h2: "get_processes ?W ?E = Inr 2"
    and h3: "imagej_init ?E = Inr 0"
    and h4: "directory ?E (vsi_folder_entry ?W) = Inr ?entries"
    and h5: "\<forall>fs. mset (as_completed ?E 2 fs) = mset fs"
    by (rule lab_config)+
  have files: "vsi_files_of (map fst ?entries) = [''a.vsi'', ''b.vsi'']"
    by (simp add: vsi_files_of_def endswith_def)
  show ?thesis
    using one_result_per_discovered_file [OF h1 h2 h3 h4 h5, unfolded files] h1 h5
    by blast
qed

text \<open>
  Claim C3. When the memory field or the process field holds a number that is zero or
  negative, the run ends with the Input Error message alone: nothing is listed, no JVM
  option is set, ImageJ is not started and no task is submitted.
\<close>

theorem invalid_config_stops_before_any_work:
  assumes "(memory_entry W \<noteq> [] \<and> py_int E (memory_entry W) = Inr m \<and> m \<le> 0)
     \<or> (process_entry W \<noteq> [] \<and> py_int E (process_entry W) = Inr n \<and> n \<le> 0)"
  shows "\<exists>msg. run_conversion W E =
     \<lparr>events = [Critical ''Input Error'' msg], futures = [], consumed = [],
      finished = Returned\<rparr>"
proof (cases "get_memory W E")
  case (Inl ve)
  then show ?thesis
    using run_bad_memory by blast
next
  case (Inr g)
  with assms have "get_processes W E = Inl ''Processes must be a positive integer.''"
    using get_memory_nonpositive [of W E m] get_processes_nonpositive [of W E n] by auto
  with Inr show ?thesis
    using run_bad_processes by blast
qed

theorem invalid_config_stops_before_any_work_witness:
  "py_int (lab_env [(''a.vsi'', Regular_file)] []) (memory_entry (lab_window ''0'' ''2'')) = Inr 0
   \<and> (\<exists>msg. run_conversion (lab_window ''0'' ''2'') (lab_env [(''a.vsi'', Regular_file)] []) =
        \<lparr>events = [Critical ''Input Error'' msg], futures = [], consumed = [],
         finished = Returned\<rparr>)
   \<and> py_int (lab_env [(''a.vsi'', Regular_file)] []) (process_entry (lab_window ''28'' ''-1''))
        = Inr (- 1)
   \<and> (\<exists>msg. run_conversion (lab_window ''28'' ''-1'') (lab_env [(''a.vsi'', Regular_file)] []) =
        \<lparr>events = [Critical ''Input Error'' msg], futures = [], consumed = [],
         finished = Returned\<rparr>)"
proof -
  let ?E = "lab_env [(''a.vsi'', Regular_file)] []"
  have m: "memory_entry (lab_window ''0'' ''2'') \<noteq> []
      \<and> py_int ?E (memory_entry (lab_window ''0'' ''2'')) = Inr 0 \<and> (0::int) \<le> 0"
    by (simp add: lab_defs)
  have p: "process_entry (lab_window ''28'' ''-1'') \<noteq> []
      \<and> py_int ?E (process_entry (lab_window ''28'' ''-1'')) = Inr (- 1) \<and> (- 1::int) \<le> 0"
    by (simp add: lab_defs)
  show ?thesis
    using m p
      invalid_config_stops_before_any_work [of "lab_window ''0'' ''2''" ?E 0 0]
      invalid_config_stops_before_any_work [of "lab_window ''28'' ''-1''" ?E 0 "- 1"]
    by blast
qed

text \<open>
  Claim C6. When no entry of the source folder ends with \<open>.vsi\<close>, the run shows the
  informational No Files message and returns: no error message, no task, no per-file
  line (zero successes, zero failures).
\<close>

theorem no_files_is_informational:
  assumes "get_memory W E = Inr g" "get_processes W E = Inr n" "imagej_init E = Inr ij"
    "directory E (vsi_folder_entry W) = Inr entries"
    "vsi_files_of (map fst entries) = []"
  shows "run_conversion W E =
      \<lparr>events = [Add_option (''-Xmx'' @ str_int g @ ''g''), Imagej_init,
                 Listdir (vsi_folder_entry W),
                 Information ''No Files'' ''No VSI files found in the selected folder.''],
       futures = [], consumed = [], finished = Returned\<rparr>"
  using run_valid [OF assms(1-4)] assms(5) by (simp add: no_files_def)

theorem no_files_is_informational_witness:
  "vsi_files_of (map fst [(''notes.txt'', Regular_file)]) = []
   \<and> run_conversion (lab_window ''28'' ''2'') (lab_env [(''notes.txt'', Regular_file)] []) =
      \<lparr>events = [Add_option ''-Xmx28g'', Imagej_init, Listdir ''in'',
                 Information ''No Files'' ''No VSI files found in the selected folder.''],
       futures = [], consumed = [], finished = Returned\<rparr>"
proof -
  let ?W = "lab_window ''28'' ''2''"
  let ?E = "lab_env [(''notes.txt'', Regular_file)] []"
  have h1: "get_memory ?W ?E = Inr 28" and h2: "get_processes ?W ?E = Inr 2"
    and h3: "imagej_init ?E = Inr 0"
    and h4: "directory ?E (vsi_folder_entry ?W) = Inr [(''notes.txt'', Regular_file)]"
    by (rule lab_config)+
  have h5: "vsi_files_of (map fst [(''notes.txt'', Regular_file)]) = []"
    by (simp add: vsi_files_of_def endswith_def)
  show ?thesis
    using no_files_is_informational [OF h1 h2 h3 h4 h5] h5
    by (simp add: lab_window_def str_int_def str_nat_28)
qed

text \<open>
  Claim C7, as amended. For every run that passes validation and discovery with at
  least one discovered file, the Completion message is shown exactly once, after all
  files have been processed: every discovered file was submitted and converted, the
  future of each was consumed and its line printed, and Completion is the last event,
  whatever the tasks did. When no file is discovered the run shows the No Files
  message and no Completion message.
\<close>

theorem completion_once_when_files_found:
  assumes "get_memory W E = Inr g" "get_processes W E = Inr n" "imagej_init E = Inr ij"
    "directory E (vsi_folder_entry W) = Inr entries"
    "\<forall>fs. mset (as_completed E n fs) = mset fs"
  shows "(vsi_files_of (map fst entries) \<noteq> [] \<longrightarrow>
      events (run_conversion W E) =
        [Add_option (''-Xmx'' @ str_int g @ ''g''), Imagej_init, Listdir (vsi_folder_entry W)]
        @ map Submit (vsi_files_of (map fst entries))
        @ map report (consumed (run_conversion W E)) @ [completion]
      \<and> futures (run_conversion W E) =
          map (\<lambda>file. (file,
            convert_vsi_to_tif E file (vsi_folder_entry W) (tif_folder_entry W) ij))
            (vsi_files_of (map fst entries))
      \<and> mset (consumed (run_conversion W E)) = mset (futures (run_conversion W E))
      \<and> mset (map fst (consumed (run_conversion W E))) = mset (vsi_files_of (map fst entries))
      \<and> count_list (events (run_conversion W E)) completion = 1
      \<and> finished (run_conversion W E) = Returned)
    \<and> (vsi_files_of (map fst entries) = [] \<longrightarrow>
      events (run_conversion W E) =
        [Add_option (''-Xmx'' @ str_int g @ ''g''), Imagej_init, Listdir (vsi_folder_entry W),
         no_files]
      \<and> count_list (events (run_conversion W E)) completion = 0
      \<and> finished (run_conversion W E) = Returned)"
proof (cases "vsi_files_of (map fst entries) = []")
  case True
  then show ?thesis
    using run_valid [OF assms(1-4)] by (simp add: no_files_def completion_def)
next
  case False
  define fs where "fs = map (\<lambda>file. (file,
      convert_vsi_to_tif E file (vsi_folder_entry W) (tif_folder_entry W) ij))
      (vsi_files_of (map fst entries))"
  have run: "run_conversion W E = run_pool W E n ij
      [Add_option (''-Xmx'' @ str_int g @ ''g''), Imagej_init, Listdir (vsi_folder_entry W)]
      (vsi_files_of (map fst entries))"
    using run_valid [OF assms(1-4)] False by simp
  have fu: "futures (run_conversion W E) = fs"
    by (simp add: run run_pool_def Let_def fs_def)
  have co: "consumed (run_conversion W E) = as_completed E n fs"
    by (simp add: run run_pool_def Let_def fs_def)
  have ev: "events (run_conversion W E) =
      [Add_option (''-Xmx'' @ str_int g @ ''g''), Imagej_init, Listdir (vsi_folder_entry W)]
      @ map Submit (vsi_files_of (map fst entries)) @ map report (as_completed E n fs)
      @ [completion]"
    by (simp add: run run_pool_def Let_def fs_def)
  have fin: "finished (run_conversion W E) = Returned"
    by (simp add: run run_pool_def Let_def)
  have perm: "mset (as_completed E n fs) = mset fs"
    using assms(5) by blast
  have names: "map fst fs = vsi_files_of (map fst entries)"
    by (simp add: fs_def comp_def)
  have "mset (map fst (as_completed E n fs)) = mset (map fst fs)"
    using perm by (metis mset_map)
  then have names': "mset (map fst (as_completed E n fs)) = mset (vsi_files_of (map fst entries))"
    by (simp only: names)
  have once: "count_list (events (run_conversion W E)) completion = 1"
    unfolding ev
    by (simp add: count_completion_submits count_completion_reports) (simp add: completion_def)
  have ev': "events (run_conversion W E) =
      [Add_option (''-Xmx'' @ str_int g @ ''g''), Imagej_init, Listdir (vsi_folder_entry W)]
      @ map Submit (vsi_files_of (map fst entries))
      @ map report (consumed (run_conversion W E)) @ [completion]"
    using ev by (simp only: co)
  have fu': "futures (run_conversion W E) =
      map (\<lambda>file. (file,
        convert_vsi_to_tif E file (vsi_folder_entry W) (tif_folder_entry W) ij))
        (vsi_files_of (map fst entries))"
    using fu by (simp only: fs_def)
  have perm': "mset (consumed (run_conversion W E)) = mset (futures (run_conversion W E))"
    using perm by (simp only: fu co)
  have names'': "mset (map fst (consumed (run_conversion W E))) =
      mset (vsi_files_of (map fst entries))"
    using names' by (simp only: co)
  show ?thesis
    using False ev' fu' perm' names'' once fin by blast
qed

theorem completion_once_when_files_found_witness:
  "vsi_files_of (map fst [(''a.vsi'', Regular_file), (''b.vsi'', Regular_file)]) \<noteq> []
   \<and> (\<forall>fs. mset (as_completed
        (lab_env [(''a.vsi'', Regular_file), (''b.vsi'', Regular_file)] [''in/a.vsi'']) 2 fs)
        = mset fs)
   \<and> count_list (events (run_conversion (lab_window ''28'' ''2'')
        (lab_env [(''a.vsi'', Regular_file), (''b.vsi'', Regular_file)] [''in/a.vsi''])))
        completion = 1
   \<and> mset (map fst (consumed (run_conversion (lab_window ''28'' ''2'')
        (lab_env [(''a.vsi'', Regular_file), (''b.vsi'', Regular_file)] [''in/a.vsi'']))))
       = mset (vsi_files_of (map fst [(''a.vsi'', Regular_file), (''b.vsi'', Regular_file)]))
   \<and> finished (run_conversion (lab_window ''28'' ''2'')
        (lab_env [(''a.vsi'', Regular_file), (''b.vsi'', Regular_file)] [''in/a.vsi''])) =
      Returned
   \<and> vsi_files_of (map fst [(''notes.txt'', Regular_file)]) = []
   \<and> count_list (events (run_conversion (lab_window ''28'' ''2'')
        (lab_env [(''notes.txt'', Regular_file)] []))) completion = 0"
proof -
  let ?W = "lab_window ''28'' ''2''"
  let ?entries = "[(''a.vsi'', Regular_file), (''b.vsi'', Regular_file)]"
  let ?E = "lab_env ?entries [''in/a.vsi'']"
  let ?others = "[(''notes.txt'', Regular_file)]"
  let ?Enone = "lab_env ?others []"
  have h1: "get_memory ?W ?E = Inr 28" and h2: "get_processes ?W ?E = Inr 2"
    and h3: "imagej_init ?E = Inr 0"
    and h4: "directory ?E (vsi_folder_entry ?W) = Inr ?entries"
    and h5: "\<forall>fs. mset (as_completed ?E 2 fs) = mset fs"
    by (rule lab_config)+
  have k1: "get_memory ?W ?Enone = Inr 28" and k2: "get_processes ?W ?Enone = Inr 2"
    and k3: "imagej_init ?Enone = Inr 0"
    and k4: "directory ?Enone (vsi_folder_entry ?W) = Inr ?others"
    and k5: "\<forall>fs. mset (as_completed ?Enone 2 fs) = mset fs"
    by (rule lab_config)+
  have some: "vsi_files_of (map fst ?entries) \<noteq> []"
    by (simp add: vsi_files_of_def endswith_def)
  have none: "vsi_files_of (map fst ?others) = []"
    by (simp add: vsi_files_of_def endswith_def)
  show ?thesis
    using completion_once_when_files_found [OF h1 h2 h3 h4 h5]
      completion_once_when_files_found [OF k1 k2 k3 k4 k5] some none h5
    by blast
qed

text \<open>
  Claim C7, as stated, fails when no file is discovered: the run passes validation and
  discovery, shows the No Files message and returns without a Completion message.
\<close>

theorem no_completion_signal_without_files:
  "get_memory (lab_window ''28'' ''2'') (lab_env [] []) = Inr 28
   \<and> get_processes (lab_window ''28'' ''2'') (lab_env [] []) = Inr 2
   \<and> directory (lab_env [] []) (vsi_folder_entry (lab_window ''28'' ''2'')) = Inr []
   \<and> events (run_conversion (lab_window ''28'' ''2'') (lab_env [] [])) =
       [Add_option ''-Xmx28g'', Imagej_init, Listdir ''in'',
        Information ''No Files'' ''No VSI files found in the selected folder.'']
   \<and> count_list (events (run_conversion (lab_window ''28'' ''2'') (lab_env [] []))) completion = 0
   \<and> finished (run_conversion (lab_window ''28'' ''2'') (lab_env [] [])) = Returned"
  by (simp add: run_defs lab_defs str_nat_28 Let_def)

text \<open>
  Claim C10. Discovery looks at names only: an entry of any kind (a subfolder, say)
  whose name ends with \<open>.vsi\<close> is among the discovered files and is submitted as a
  conversion task.
\<close>

theorem discovery_ignores_entry_kind:
  assumes "get_memory W E = Inr g" "get_processes W E = Inr n" "imagej_init E = Inr ij"
    "directory E (vsi_folder_entry W) = Inr entries"
    "(name, kind) \<in> set entries" "endswith name ''.vsi''"
  shows "name \<in> set (vsi_files_of (map fst entries))
    \<and> Submit name \<in> set (events (run_conversion W E))
    \<and> (name, convert_vsi_to_tif E name (vsi_folder_entry W) (tif_folder_entry W) ij)
        \<in> set (futures (run_conversion W E))"
proof -
  have mem: "name \<in> set (vsi_files_of (map fst entries))"
    using assms(5,6) by (force simp: vsi_files_of_def)
  then have ne: "vsi_files_of (map fst entries) \<noteq> []"
    by auto
  have run: "run_conversion W E = run_pool W E n ij
      [Add_option (''-Xmx'' @ str_int g @ ''g''), Imagej_init, Listdir (vsi_folder_entry W)]
      (vsi_files_of (map fst entries))"
    using run_valid [OF assms(1-4)] ne by simp
  show ?thesis
    using mem by (auto simp: run run_pool_def Let_def)
qed

theorem discovery_ignores_entry_kind_witness:
  "(''scan.vsi'', Directory) \<in> set [(''scan.vsi'', Directory), (''a.vsi'', Regular_file)]
   \<and> endswith ''scan.vsi'' ''.vsi''
   \<and> ''scan.vsi'' \<in> set (vsi_files_of
        (map fst [(''scan.vsi'', Directory), (''a.vsi'', Regular_file)]))
   \<and> Submit ''scan.vsi'' \<in> set (events (run_conversion (lab_window ''28'' ''2'')
        (lab_env [(''scan.vsi'', Directory), (''a.vsi'', Regular_file)] [])))"
proof -
  let ?W = "lab_window ''28'' ''2''"
  let ?entries = "[(''scan.vsi'', Directory), (''a.vsi'', Regular_file)]"
  let ?E = "lab_env ?entries []"
  have h1: "get_memory ?W ?E = Inr 28" and h2: "get_processes ?W ?E = Inr 2"
    and h3: "imagej_init ?E = Inr 0"
    and h4: "directory ?E (vsi_folder_entry ?W) = Inr ?entries"
    by (rule lab_config)+
  have h5: "(''scan.vsi'', Directory) \<in> set ?entries"
    by simp
  have h6: "endswith ''scan.vsi'' ''.vsi''"
    by (simp add: endswith_def)
  show ?thesis
    using discovery_ignores_entry_kind [OF h1 h2 h3 h4 h5 h6] h5 h6
    by blast
qed

end
